theory Spec2Isabelle
  imports Main "HOL-Library.AList"
begin

section \<open>JavaScript values\<close>

text \<open>
  The program is \<^verbatim>\<open>src/bin/ulc.js\<close>, an ES module run by Node. Its records are whatever
  \<^verbatim>\<open>JSON.parse\<close> returns, so the model has two value types.

  \<^item> \<open>json\<close> is a parsed JSON document, the content of a ledger file. An object lists its
    members in order (keys are expected to be distinct; a lookup takes the first).
  \<^item> \<open>jsval\<close> is a value in memory. It adds \<open>undefined\<close>, and an array carries, besides
    its elements, the named properties assigned to it (\<^verbatim>\<open>rec.style.ask_when_uncertain = ...\<close>
    on a record whose \<^verbatim>\<open>style\<close> is an array): \<^verbatim>\<open>JSON.stringify\<close> drops both.

  A string is its sequence of UTF-16 code units, restricted to the units below 256 that
  an Isabelle \<open>char\<close> holds. A number in a document is the integer its literal denotes
  (literals with a fractional part are not represented); in memory it is the double that
  \<^verbatim>\<open>JSON.parse\<close> rounds the literal to, which is infinite when the literal overflows.
\<close>

subsection \<open>Numbers\<close>

text \<open>
  A double with an integer value, or an infinity. \<^verbatim>\<open>JSON.parse\<close> never yields
  \<^verbatim>\<open>NaN\<close>, and the two zeros behave alike in this program.
\<close>

datatype number = Finite int | PosInfinity | NegInfinity

function bit_length :: "int \<Rightarrow> int" where
  "bit_length n = (if n \<le> 0 then 0 else 1 + bit_length (n div 2))"
  by auto
termination
  by (relation "measure nat") auto

text \<open>
  The double nearest to an integer, ties to the even significand of 53 bits; from
  \<open>2\<^sup>1\<^sup>0\<^sup>2\<^sup>4\<close> on the result is infinite.
\<close>

definition round_double :: "int \<Rightarrow> number" where
  "round_double n =
     (let a = \<bar>n\<bar> in
      if a < 2 ^ 53 then Finite n
      else
        let e = nat (bit_length a - 53);
            q = a div 2 ^ e;
            r = a mod 2 ^ e;
            m = (if 2 ^ e < 2 * r \<or> (2 * r = 2 ^ e \<and> odd q) then q + 1 else q);
            v = m * 2 ^ e
        in if 2 ^ 1024 \<le> v then (if n < 0 then NegInfinity else PosInfinity)
           else Finite (if n < 0 then - v else v))"

function digit_count :: "int \<Rightarrow> int" where
  "digit_count n = (if n < 10 then 1 else 1 + digit_count (n div 10))"
  by auto
termination
  by (relation "measure nat") auto

function nat_digits :: "int \<Rightarrow> string" where
  "nat_digits n =
     (if n < 10 then [char_of (48 + n)]
      else nat_digits (n div 10) @ [char_of (48 + n mod 10)])"
  by auto
termination
  by (relation "measure nat") auto

text \<open>
  The digits \<^verbatim>\<open>Number.prototype.toString\<close> prints for a double: the fewest significant
  digits, at most seventeen, that still round to it, and among those the value nearest to
  it (the even one on a tie). \<open>shortest_candidates a k\<close> are the values with \<open>k\<close>
  significant digits around \<open>a\<close> that round to \<open>a\<close>, the nearest first.
\<close>

definition shortest_candidates :: "int \<Rightarrow> int \<Rightarrow> int list" where
  "shortest_candidates a k =
     (if digit_count a \<le> k then [a]
      else
        let p = 10 ^ nat (digit_count a - k);
            lo = (a div p) * p;
            hi = lo + p
        in filter (\<lambda>v. round_double v = Finite a)
             (if a - lo < hi - a \<or> (a - lo = hi - a \<and> even (a div p))
              then [lo, hi] else [hi, lo]))"

function shortest_from :: "int \<Rightarrow> int \<Rightarrow> int" where
  "shortest_from a k =
     (if 17 < k then a
      else (case shortest_candidates a k of
              v # vs \<Rightarrow> v
            | [] \<Rightarrow> shortest_from a (k + 1)))"
  by auto
termination
  by (relation "measure (\<lambda>(a, k). nat (18 - k))") auto

text \<open>The integer that the literal \<^verbatim>\<open>JSON.stringify\<close> writes for a finite double denotes.\<close>

definition number_literal :: "int \<Rightarrow> int" where
  "number_literal n = (if n < 0 then - shortest_from (- n) 1 else shortest_from n 1)"

text \<open>
  \<^verbatim>\<open>String\<close> of a number: plain digits up to twenty-one of them, the exponent form
  beyond.
\<close>

definition number_string :: "number \<Rightarrow> string" where
  "number_string x =
     (case x of
        PosInfinity \<Rightarrow> ''Infinity''
      | NegInfinity \<Rightarrow> ''-Infinity''
      | Finite n \<Rightarrow>
          (if n < 0 then ''-'' else []) @
          (let v = shortest_from \<bar>n\<bar> 1;
               ds = nat_digits v;
               sig = rev (dropWhile (\<lambda>c. c = CHR ''0'') (rev ds))
           in if digit_count v \<le> 21 then ds
              else hd sig # (if tl sig = [] then [] else ''.'' @ tl sig)
                   @ ''e+'' @ nat_digits (digit_count v - 1)))"

subsection \<open>Documents and values\<close>

datatype json =
    Null
  | Bool bool
  | Num int
  | Str string
  | Arr "json list"
  | Obj "(string \<times> json) list"

datatype jsval =
    JUndefined
  | JNull
  | JBool bool
  | JNum number
  | JStr string
  | JArr "jsval list" "(string \<times> jsval) list"
  | JObj "(string \<times> jsval) list"

text \<open>
  \<^verbatim>\<open>JSON.parse\<close> on a document: the value it builds in memory, a number rounded to a
  double.
\<close>

fun fromJson :: "json \<Rightarrow> jsval" where
  "fromJson Null = JNull"
| "fromJson (Bool b) = JBool b"
| "fromJson (Num n) = JNum (round_double n)"
| "fromJson (Str s) = JStr s"
| "fromJson (Arr xs) = JArr (map fromJson xs) []"
| "fromJson (Obj kvs) = JObj (map (\<lambda>kv. (fst kv, fromJson (snd kv))) kvs)"

text \<open>
  \<^verbatim>\<open>JSON.stringify\<close> followed by a later parse: the document a value is stored as.
  An \<open>undefined\<close> member of an object is omitted, an \<open>undefined\<close> element of an array
  becomes \<open>null\<close>, the named properties of an array are lost, a finite number is written
  with the digits of \<^verbatim>\<open>Number.prototype.toString\<close> and an infinite one as \<open>null\<close>.
\<close>

fun toJson :: "jsval \<Rightarrow> json" where
  "toJson JUndefined = Null"
| "toJson JNull = Null"
| "toJson (JBool b) = Bool b"
| "toJson (JNum (Finite n)) = Num (number_literal n)"
| "toJson (JNum PosInfinity) = Null"
| "toJson (JNum NegInfinity) = Null"
| "toJson (JStr s) = Str s"
| "toJson (JArr xs ex) = Arr (map toJson xs)"
| "toJson (JObj kvs) =
     Obj (map (\<lambda>kv. (fst kv, toJson (snd kv))) (filter (\<lambda>kv. snd kv \<noteq> JUndefined) kvs))"

text \<open>Member lookup in a stored document.\<close>

fun json_get :: "string \<Rightarrow> json \<Rightarrow> json option" where
  "json_get k (Obj kvs) = map_of kvs k"
| "json_get k _ = None"

text \<open>
  Property read \<^verbatim>\<open>v[k]\<close> and \<^verbatim>\<open>v?.[k]\<close>. The program reads only fixed, non-numeric
  names other than \<^verbatim>\<open>length\<close> this way, so a primitive has none of them. On
  \<open>null\<close> and \<open>undefined\<close> the plain read throws; the functions below either use the
  optional form there or are reached only with an object.
\<close>

fun get_prop :: "string \<Rightarrow> jsval \<Rightarrow> jsval" where
  "get_prop k (JObj kvs) = (case map_of kvs k of Some v \<Rightarrow> v | None \<Rightarrow> JUndefined)"
| "get_prop k (JArr xs ex) = (case map_of ex k of Some v \<Rightarrow> v | None \<Rightarrow> JUndefined)"
| "get_prop k _ = JUndefined"

text \<open>
  Property write \<^verbatim>\<open>v[k] = x\<close>: an existing key keeps its place, a new one goes last.
  The program writes only to records that passed hard validation and to values it has
  just made objects, so the primitive case is never reached.
\<close>

fun set_prop :: "string \<Rightarrow> jsval \<Rightarrow> jsval \<Rightarrow> jsval" where
  "set_prop k x (JObj kvs) = JObj (AList.update k x kvs)"
| "set_prop k x (JArr xs ex) = JArr xs (AList.update k x ex)"
| "set_prop k x v = v"

text \<open>Objects and arrays: the values \<^verbatim>\<open>typeof\<close> calls \<^verbatim>\<open>"object"\<close>, \<open>null\<close> apart.\<close>

fun is_obj :: "jsval \<Rightarrow> bool" where
  "is_obj (JObj kvs) = True"
| "is_obj (JArr xs ex) = True"
| "is_obj _ = False"

fun js_truthy :: "jsval \<Rightarrow> bool" where
  "js_truthy JUndefined = False"
| "js_truthy JNull = False"
| "js_truthy (JBool b) = b"
| "js_truthy (JNum x) = (x \<noteq> Finite 0)"
| "js_truthy (JStr s) = (s \<noteq> [])"
| "js_truthy (JArr xs ex) = True"
| "js_truthy (JObj kvs) = True"

text \<open>The operator \<^verbatim>\<open>a ?? b\<close>.\<close>

definition nullish :: "jsval \<Rightarrow> bool" where
  "nullish v = (v = JUndefined \<or> v = JNull)"

definition coalesce :: "jsval \<Rightarrow> jsval \<Rightarrow> jsval" where
  "coalesce a b = (if nullish a then b else a)"

text \<open>\<^verbatim>\<open>Array.prototype.join\<close> on strings.\<close>

fun js_join :: "string \<Rightarrow> string list \<Rightarrow> string" where
  "js_join sep [] = []"
| "js_join sep [x] = x"
| "js_join sep (x # y # ys) = x @ sep @ js_join sep (y # ys)"

text \<open>\<^verbatim>\<open>String(v)\<close> and the conversion inside a template literal.\<close>

fun js_String :: "jsval \<Rightarrow> string" where
  "js_String JUndefined = ''undefined''"
| "js_String JNull = ''null''"
| "js_String (JBool b) = (if b then ''true'' else ''false'')"
| "js_String (JNum x) = number_string x"
| "js_String (JStr s) = s"
| "js_String (JArr xs ex) =
     js_join '','' (map (\<lambda>x. if x = JUndefined \<or> x = JNull then [] else js_String x) xs)"
| "js_String (JObj kvs) = ''[object Object]''"

text \<open>
  \<^verbatim>\<open>String.prototype.trim\<close>: the white space and line terminators of ECMAScript among
  the code units below 256 are TAB, LF, VT, FF, CR, SP and NBSP.
\<close>

definition js_space :: "char \<Rightarrow> bool" where
  "js_space c = (of_char c \<in> {9, 10, 11, 12, 13, 32, 160 :: nat})"

definition js_trim :: "string \<Rightarrow> string" where
  "js_trim s = rev (dropWhile js_space (rev (dropWhile js_space s)))"

text \<open>\<^verbatim>\<open>String.prototype.toLowerCase\<close> on the code units below 256.\<close>

definition js_lower :: "char \<Rightarrow> char" where
  "js_lower c =
     (let n = (of_char c :: nat) in
      if (65 \<le> n \<and> n \<le> 90) \<or> (192 \<le> n \<and> n \<le> 222 \<and> n \<noteq> 215)
      then char_of (n + 32) else c)"

definition js_toLowerCase :: "string \<Rightarrow> string" where
  "js_toLowerCase s = map js_lower s"

definition startsWith :: "string \<Rightarrow> string \<Rightarrow> bool" where
  "startsWith p s = (take (length p) s = p)"

definition endsWith :: "string \<Rightarrow> string \<Rightarrow> bool" where
  "endsWith p s = (length p \<le> length s \<and> drop (length s - length p) s = p)"

definition nl :: string where
  "nl = [CHR 0x0A]"


section \<open>The host: file system, clock, paths\<close>

text \<open>
  What Node supplies is a parameter. A file either parses (\<open>Parsed doc\<close>) or makes
  \<^verbatim>\<open>readFileSync\<close> or \<^verbatim>\<open>JSON.parse\<close> throw with a message (\<open>Corrupt msg\<close>). The file
  system maps a path to its file. Writes are taken to succeed, the clock is read once per
  invocation, and the diagnostic stream (the warnings of soft validation, which reads the
  record and cannot fail) is not part of the state.
\<close>

datatype ledger_file = Corrupt string | Parsed json

type_synonym filesystem = "string \<rightharpoonup> ledger_file"

record host =
  path_resolve :: "string \<Rightarrow> string"
  path_join :: "string \<Rightarrow> string \<Rightarrow> string"
  defaultLedgerDir :: string
  todayISO :: string
  nowISO :: string
  localeCompare :: "string \<Rightarrow> string \<Rightarrow> int"

text \<open>
  \<open>Die msg\<close> is \<^verbatim>\<open>die(msg)\<close>: the message goes to the error stream and
  \<^verbatim>\<open>process.exit(1)\<close> ends the process on the spot; no \<^verbatim>\<open>catch\<close> sees it.
  \<open>Thrown\<close> is a JavaScript exception, which a \<^verbatim>\<open>catch\<close> does see.
\<close>

datatype error = Die string | Thrown string

definition VERSION :: string where
  "VERSION = ''0.1.0''"

section \<open>Arguments\<close>

text \<open>
  \<^verbatim>\<open>parseArgs\<close> builds an object: \<^verbatim>\<open>_\<close> collects the positionals, \<^verbatim>\<open>--json\<close> and
  \<^verbatim>\<open>--force\<close> are booleans, every other flag takes the next word, and a repeated flag
  becomes an array. Flags named after a member of \<^verbatim>\<open>Object.prototype\<close> are outside the
  model; \<^verbatim>\<open>main\<close> reads none of them.
\<close>

definition js_push :: "jsval \<Rightarrow> jsval \<Rightarrow> jsval" where
  "js_push arr x = (case arr of JArr xs ex \<Rightarrow> JArr (xs @ [x]) ex | _ \<Rightarrow> arr)"

fun parseArgs_loop :: "string list \<Rightarrow> jsval \<Rightarrow> error + jsval" where
  "parseArgs_loop [] out = Inr out"
| "parseArgs_loop (a # argv) out =
     (if \<not> startsWith ''--'' a
      then parseArgs_loop argv (set_prop ''_'' (js_push (get_prop ''_'' out) (JStr a)) out)
      else
        let key = drop 2 a in
        if key = ''json'' \<or> key = ''force''
        then parseArgs_loop argv (set_prop key (JBool True) out)
        else (case argv of
            [] \<Rightarrow> Inl (Die (''missing value for --'' @ key))
          | v # rest \<Rightarrow>
              if v = [] \<or> startsWith ''--'' v then Inl (Die (''missing value for --'' @ key))
              else if nullish (get_prop key out)
                then parseArgs_loop rest (set_prop key (JStr v) out)
              else (case get_prop key out of
                  JArr xs ex \<Rightarrow> parseArgs_loop rest (set_prop key (JArr (xs @ [JStr v]) ex) out)
                | old \<Rightarrow> parseArgs_loop rest (set_prop key (JArr [old, JStr v] []) out))))"

definition parseArgs :: "string list \<Rightarrow> error + jsval" where
  "parseArgs argv = parseArgs_loop argv (JObj [(''_'', JArr [] [])])"

section \<open>Reading and validating a record\<close>

definition readJson :: "filesystem \<Rightarrow> string \<Rightarrow> error + jsval" where
  "readJson fs filePath =
     (case fs filePath of
        Some (Parsed doc) \<Rightarrow> Inr (fromJson doc)
      | Some (Corrupt msg) \<Rightarrow>
          Inl (Die (''failed to read or parse JSON: '' @ filePath @ nl @ msg))
      | None \<Rightarrow>
          Inl (Die (''failed to read or parse JSON: '' @ filePath @ nl @
                    ''ENOENT: no such file or directory, open '' @ filePath)))"

definition required :: "string list" where
  "required = [''lid'', ''project'', ''created_at'', ''summary'']"

text \<open>The backquote and the double quote of the messages.\<close>

definition bq :: string where
  "bq = [CHR 0x60]"

definition dq :: string where
  "dq = [CHR 0x22]"

definition hardValidateLedgerRecord :: "jsval \<Rightarrow> error + jsval" where
  "hardValidateLedgerRecord rec =
     (let missing = filter (\<lambda>k. \<not> js_truthy (get_prop k rec)) required in
      if missing \<noteq> []
      then Inl (Die (''ledger entry missing required field(s): '' @ js_join '', '' missing))
      else if (case get_prop ''lid'' rec of JStr s \<Rightarrow> length (js_trim s) < 3 | _ \<Rightarrow> True)
      then Inl (Die (''ledger entry has invalid '' @ bq @ ''lid'' @ bq))
      else if (case get_prop ''project'' rec of JStr s \<Rightarrow> js_trim s = [] | _ \<Rightarrow> True)
      then Inl (Die (''ledger entry has invalid '' @ bq @ ''project'' @ bq))
      else if (case get_prop ''summary'' rec of JStr s \<Rightarrow> js_trim s = [] | _ \<Rightarrow> True)
      then Inl (Die (''ledger entry has invalid '' @ bq @ ''summary'' @ bq))
      else Inr rec)"

definition loadLedger :: "host \<Rightarrow> filesystem \<Rightarrow> jsval \<Rightarrow> string \<Rightarrow> error + (jsval \<times> string)" where
  "loadLedger h fs lid ledgerDir =
     (let filePath = path_join h ledgerDir (js_String lid @ ''.json'') in
      if fs filePath = None
      then Inl (Die (''ledger entry not found: '' @ filePath @ nl @
                     ''Tip: create ~/.ulc/ledger/'' @ js_String lid @ ''.json or use --ledger-dir''))
      else (case readJson fs filePath of
          Inl e \<Rightarrow> Inl e
        | Inr rec \<Rightarrow>
            (case hardValidateLedgerRecord rec of
               Inl e \<Rightarrow> Inl e
             | Inr _ \<Rightarrow> Inr (rec, filePath))))"

text \<open>
  The directory of an invocation: \<^verbatim>\<open>path.resolve\<close> throws on the array a repeated
  \<^verbatim>\<open>--ledger-dir\<close> leaves.
\<close>

definition ledgerDirOf :: "host \<Rightarrow> jsval \<Rightarrow> error + string" where
  "ledgerDirOf h args =
     (let d = get_prop ''ledger-dir'' args in
      if js_truthy d
      then (case d of JStr s \<Rightarrow> Inr (path_resolve h s)
                    | _ \<Rightarrow> Inl (Thrown ''ERR_INVALID_ARG_TYPE''))
      else Inr (defaultLedgerDir h))"

section \<open>Compiling a record into a context packet\<close>

fun isArray :: "jsval \<Rightarrow> bool" where
  "isArray (JArr xs ex) = True"
| "isArray _ = False"

fun elems :: "jsval \<Rightarrow> jsval list" where
  "elems (JArr xs ex) = xs"
| "elems _ = []"

record ctx_meta =
  source :: string
  version :: string
  lid :: jsval
  created_at :: jsval
  project :: jsval

record ctx_style =
  tone :: jsval
  format :: jsval
  ask_when_uncertain :: jsval

record ctx_state =
  as_of :: jsval
  "notes" :: "jsval list"

record context_packet =
  meta :: ctx_meta
  summary :: jsval
  goals :: "jsval list"
  constraints :: "jsval list"
  style :: ctx_style
  last_known_state :: ctx_state
  instructions :: "string list"

text \<open>
  \<^verbatim>\<open>compileContext\<close> reads \<^verbatim>\<open>rec.goals\<close> plainly, which throws on \<open>null\<close> and
  \<open>undefined\<close>; \<^verbatim>\<open>main\<close> calls it with a validated record only.
\<close>

definition compileContext :: "jsval \<Rightarrow> error + context_packet" where
  "compileContext rec =
     (if nullish rec then Inl (Thrown ''TypeError'')
      else
        let goals = (if isArray (get_prop ''goals'' rec) then elems (get_prop ''goals'' rec) else []);
            constraints = (if isArray (get_prop ''constraints'' rec)
                           then elems (get_prop ''constraints'' rec) else []);
            style = coalesce (get_prop ''style'' rec) (JObj []);
            lastState = coalesce (get_prop ''last_state'' rec) (JObj []);
            lastNotes = (if isArray (get_prop ''notes'' lastState)
                         then elems (get_prop ''notes'' lastState) else []);
            asOf = coalesce (get_prop ''as_of'' lastState) (JStr [])
        in Inr \<lparr>
          meta = \<lparr>
            source = ''Universal Ledger CLI'',
            version = VERSION,
            lid = get_prop ''lid'' rec,
            created_at = get_prop ''created_at'' rec,
            project = get_prop ''project'' rec \<rparr>,
          summary = get_prop ''summary'' rec,
          goals = goals,
          constraints = constraints,
          style = \<lparr>
            tone = coalesce (get_prop ''tone'' style) (JStr ''Precise, technical''),
            format = coalesce (get_prop ''format'' style) (JStr ''Bullets preferred''),
            ask_when_uncertain = coalesce (get_prop ''ask_when_uncertain'' style) (JBool True) \<rparr>,
          last_known_state = \<lparr> as_of = asOf, notes = lastNotes \<rparr>,
          instructions = [
            ''Treat this block as authoritative user-provided context.'',
            ''Do not assume any prior internal memory beyond this block.'',
            ''Ask for clarification if this block conflicts with current conversation state.''] \<rparr>)"

section \<open>The text formatter\<close>



section \<open>Creating a record\<close>

definition parseYesNo :: "jsval \<Rightarrow> string \<Rightarrow> error + jsval" where
  "parseYesNo v flagName =
     (if nullish v then Inr JNull
      else
        let s = js_toLowerCase (js_trim (js_String v)) in
        if s \<in> set [''yes'', ''true'', ''1''] then Inr (JBool True)
        else if s \<in> set [''no'', ''false'', ''0''] then Inr (JBool False)
        else Inl (Die (''invalid value for '' @ flagName @ '': expected yes|no'')))"

text \<open>
  \<^verbatim>\<open>initLedgerEntry\<close> takes \<^verbatim>\<open>{lid, project, summary, goals, constraints}\<close>; the date
  is the host's.
\<close>

definition initLedgerEntry :: "host \<Rightarrow> jsval \<Rightarrow> jsval \<Rightarrow> jsval \<Rightarrow> jsval \<Rightarrow> jsval \<Rightarrow> jsval" where
  "initLedgerEntry h = (\<lambda>lid project summary goals constraints.
      let today = todayISO h in
      JObj [
        (''lid'', lid),
        (''project'', project),
        (''created_at'', JStr (todayISO h)),
        (''summary'', JStr ''TODO: one-sentence purpose for this collaboration context''),
        (''goals'',
           if isArray goals \<and> elems goals \<noteq> [] then goals
           else JArr [JStr ''TODO'', JStr ''TODO''] []),
        (''constraints'',
           if isArray constraints \<and> elems constraints \<noteq> [] then constraints
           else JArr [JStr ''No claims of persistent AI memory'',
                      JStr ''No bypassing safeguards'',
                      JStr ''No network calls in v1''] []),
        (''style'', JObj [
           (''tone'', JStr ''Precise, technical, minimal metaphor''),
           (''format'', JStr ''Short paragraphs, explicit bullets''),
           (''ask_when_uncertain'', JBool True)]),
        (''last_state'', JObj [
           (''as_of'', JStr today),
           (''notes'', JArr [JStr (''Initialized ledger entry template via '' @ bq @ ''ulc init'' @ bq @ ''.'')] [])])])"

text \<open>
  The \<^verbatim>\<open>init\<close> command of \<^verbatim>\<open>main\<close>: the outcome and the file system after it. The
  file system has no directories of its own, so \<^verbatim>\<open>mkdirSync\<close> leaves it as it is.
\<close>

definition init :: "host \<Rightarrow> jsval \<Rightarrow> filesystem \<Rightarrow> (error + string) \<times> filesystem" where
  "init h args fs =
     (let lid = get_prop ''lid'' args;
          project = get_prop ''project'' args in
      if \<not> js_truthy lid then (Inl (Die ''init requires --lid <LID>''), fs)
      else if \<not> js_truthy project then (Inl (Die (''init requires --project '' @ dq @ ''<name>'' @ dq)), fs)
      else (case ledgerDirOf h args of
          Inl e \<Rightarrow> (Inl e, fs)
        | Inr ledgerDir \<Rightarrow>
            let filePath = path_join h ledgerDir (js_String lid @ ''.json'') in
            if fs filePath \<noteq> None \<and> \<not> js_truthy (get_prop ''force'' args)
            then (Inl (Die (''ledger entry already exists: '' @ filePath @ nl @
                            ''Use --force to overwrite.'')), fs)
            else
              let summary = get_prop ''summary'' args;
                  goalsArg = get_prop ''goal'' args;
                  goals = (if isArray goalsArg then goalsArg
                           else if js_truthy goalsArg then JArr [goalsArg] [] else JUndefined);
                  constraintsArg = get_prop ''constraint'' args;
                  constraints = (if isArray constraintsArg then constraintsArg
                                 else if js_truthy constraintsArg then JArr [constraintsArg] []
                                 else JUndefined);
                  rec = initLedgerEntry h lid project summary goals constraints
              in (Inr (''Created: '' @ filePath @ nl), fs(filePath \<mapsto> Parsed (toJson rec)))))"

section \<open>Listing the ledger directory\<close>

text \<open>
  \<^verbatim>\<open>Array.prototype.sort\<close> is stable: an insertion sort with the comparator, which
  keeps the earlier of two entries the comparator does not separate in front.
\<close>

fun js_insert :: "('a \<Rightarrow> 'a \<Rightarrow> int) \<Rightarrow> 'a \<Rightarrow> 'a list \<Rightarrow> 'a list" where
  "js_insert cmp x [] = [x]"
| "js_insert cmp x (y # ys) = (if cmp x y \<le> 0 then x # y # ys else y # js_insert cmp x ys)"

definition js_sort :: "('a \<Rightarrow> 'a \<Rightarrow> int) \<Rightarrow> 'a list \<Rightarrow> 'a list" where
  "js_sort cmp xs = foldr (js_insert cmp) xs []"

text \<open>
  The loop of \<^verbatim>\<open>listLedgerEntries\<close>. Its body is a \<^verbatim>\<open>try\<close> block whose \<^verbatim>\<open>catch\<close>
  ignores an exception and goes on with the next file; an exit of the process inside the
  block is not an exception.
\<close>

fun listLoop :: "host \<Rightarrow> filesystem \<Rightarrow> string \<Rightarrow> string list \<Rightarrow> jsval list \<Rightarrow> error + jsval list" where
  "listLoop h fs ledgerDir [] entries = Inr entries"
| "listLoop h fs ledgerDir (f # files) entries =
     (let p = path_join h ledgerDir f in
      case readJson fs p of
        Inl (Die msg) \<Rightarrow> Inl (Die msg)
      | Inl (Thrown msg) \<Rightarrow> listLoop h fs ledgerDir files entries
      | Inr rec \<Rightarrow>
          if \<not> js_truthy (get_prop ''lid'' rec) \<or> \<not> js_truthy (get_prop ''project'' rec)
          then listLoop h fs ledgerDir files entries
          else listLoop h fs ledgerDir files (entries @ [JObj [
                 (''lid'', get_prop ''lid'' rec),
                 (''project'', get_prop ''project'' rec),
                 (''created_at'', coalesce (get_prop ''created_at'' rec) (JStr [])),
                 (''summary'', coalesce (get_prop ''summary'' rec) (JStr [])),
                 (''file'', JStr p)]]))"

text \<open>
  \<open>dir\<close> is what \<^verbatim>\<open>readdirSync\<close> returns for the ledger directory, \<open>None\<close> when the
  directory does not exist.
\<close>

definition listLedgerEntries :: "host \<Rightarrow> filesystem \<Rightarrow> string list option \<Rightarrow> string \<Rightarrow> error + jsval list" where
  "listLedgerEntries h fs dir ledgerDir =
     (case dir of
        None \<Rightarrow> Inr []
      | Some names \<Rightarrow>
          let files = filter (endsWith ''.json'') names in
          (case listLoop h fs ledgerDir files [] of
             Inl e \<Rightarrow> Inl e
           | Inr entries \<Rightarrow>
               Inr (js_sort (\<lambda>a b. localeCompare h (js_String (get_prop ''created_at'' b))
                                                    (js_String (get_prop ''created_at'' a)))
                      entries)))"

section \<open>Patching a record\<close>

text \<open>The idioms \<^verbatim>\<open>Array.isArray(x) ? x : x ? [x] : []\<close>, \<^verbatim>\<open>Array.isArray(x) ? x : []\<close>
  and \<^verbatim>\<open>x && typeof x === "object" ? x : {}\<close> of the \<^verbatim>\<open>update\<close> command.\<close>

definition asList :: "jsval \<Rightarrow> jsval list" where
  "asList x = (if isArray x then elems x else if js_truthy x then [x] else [])"

definition arrayOrEmpty :: "jsval \<Rightarrow> jsval" where
  "arrayOrEmpty x = (if isArray x then x else JArr [] [])"

fun objectOrEmpty :: "jsval \<Rightarrow> jsval" where
  "objectOrEmpty (JObj kvs) = JObj kvs"
| "objectOrEmpty (JArr xs ex) = JArr xs ex"
| "objectOrEmpty _ = JObj []"

text \<open>\<^verbatim>\<open>rec[k1][k2] = x\<close>: the object under \<open>k1\<close> is changed in place.\<close>

definition set_prop2 :: "string \<Rightarrow> string \<Rightarrow> jsval \<Rightarrow> jsval \<Rightarrow> jsval" where
  "set_prop2 k1 k2 x rec = set_prop k1 (set_prop k2 x (get_prop k1 rec)) rec"

text \<open>
  The edits work on the record and the flag \<^verbatim>\<open>changed\<close>. An element equals a requested
  string exactly when it is that string, so \<^verbatim>\<open>includes\<close> is membership.
\<close>

type_synonym patch_state = "jsval \<times> bool"

text \<open>\<^verbatim>\<open>if (args.summary) { rec.summary = args.summary; changed = true; }\<close>, and the same
  for \<^verbatim>\<open>project\<close>.\<close>

definition edit_set :: "string \<Rightarrow> jsval \<Rightarrow> patch_state \<Rightarrow> patch_state" where
  "edit_set k args st =
     (if js_truthy (get_prop k args) then (set_prop k (get_prop k args) (fst st), True) else st)"

text \<open>\<^verbatim>\<open>--add-goal\<close> and \<^verbatim>\<open>--add-constraint\<close>.\<close>

definition edit_add :: "string \<Rightarrow> string \<Rightarrow> jsval \<Rightarrow> patch_state \<Rightarrow> patch_state" where
  "edit_add flag field args st =
     (let adds = asList (get_prop flag args) in
      if adds \<noteq> []
      then let rec = set_prop field (arrayOrEmpty (get_prop field (fst st))) (fst st);
               rec = set_prop field (foldl js_push (get_prop field rec) adds) rec
           in (rec, True)
      else st)"

text \<open>\<^verbatim>\<open>--remove-goal\<close> and \<^verbatim>\<open>--remove-constraint\<close>.\<close>

definition edit_remove :: "string \<Rightarrow> string \<Rightarrow> jsval \<Rightarrow> patch_state \<Rightarrow> patch_state" where
  "edit_remove flag field args st =
     (let removes = asList (get_prop flag args) in
      if removes \<noteq> []
      then let rec = set_prop field (arrayOrEmpty (get_prop field (fst st))) (fst st);
               lenBefore = length (elems (get_prop field rec));
               rec = set_prop field
                       (JArr (filter (\<lambda>g. g \<notin> set removes) (elems (get_prop field rec))) []) rec
           in (rec, if length (elems (get_prop field rec)) \<noteq> lenBefore then True else snd st)
      else st)"

text \<open>\<^verbatim>\<open>--ask-when-uncertain\<close>.\<close>

definition edit_ask :: "jsval \<Rightarrow> patch_state \<Rightarrow> error + patch_state" where
  "edit_ask args st =
     (if js_truthy (get_prop ''ask-when-uncertain'' args)
      then let rec = set_prop ''style'' (objectOrEmpty (get_prop ''style'' (fst st))) (fst st) in
           (case parseYesNo (get_prop ''ask-when-uncertain'' args) ''--ask-when-uncertain'' of
              Inl e \<Rightarrow> Inl e
            | Inr b \<Rightarrow> Inr (set_prop2 ''style'' ''ask_when_uncertain'' b rec, True))
      else Inr st)"

text \<open>\<^verbatim>\<open>--add-note\<close>: the two loops of the source, the second with \<^verbatim>\<open>addedAny\<close>.\<close>

definition edit_notes :: "jsval \<Rightarrow> patch_state \<Rightarrow> patch_state" where
  "edit_notes args st =
     (let addNotes = asList (get_prop ''add-note'' args) in
      if addNotes \<noteq> []
      then let rec = set_prop ''last_state'' (objectOrEmpty (get_prop ''last_state'' (fst st))) (fst st);
               rec = set_prop2 ''last_state'' ''notes''
                       (arrayOrEmpty (get_prop ''notes'' (get_prop ''last_state'' rec))) rec;
               rec = set_prop2 ''last_state'' ''notes''
                       (foldl (\<lambda>ns n. if n \<in> set (elems ns) then ns else js_push ns n)
                          (get_prop ''notes'' (get_prop ''last_state'' rec)) addNotes) rec;
               addedAny = False;
               (ns, addedAny) =
                  foldl (\<lambda>(ns, addedAny) n.
                           if n \<in> set (elems ns) then (ns, addedAny) else (js_push ns n, True))
                    (get_prop ''notes'' (get_prop ''last_state'' rec), addedAny) addNotes;
               rec = set_prop2 ''last_state'' ''notes'' ns rec
           in (rec, if addedAny then True else snd st)
      else st)"

text \<open>All edits, in the order of the source, from \<^verbatim>\<open>changed = false\<close>.\<close>

definition applyEdits :: "jsval \<Rightarrow> jsval \<Rightarrow> error + patch_state" where
  "applyEdits args rec =
     (let st = (rec, False);
          st = edit_set ''summary'' args st;
          st = edit_set ''project'' args st;
          st = edit_add ''add-goal'' ''goals'' args st;
          st = edit_remove ''remove-goal'' ''goals'' args st;
          st = edit_add ''add-constraint'' ''constraints'' args st;
          st = edit_remove ''remove-constraint'' ''constraints'' args st
      in case edit_ask args st of
           Inl e \<Rightarrow> Inl e
         | Inr st \<Rightarrow> Inr (edit_notes args st))"

text \<open>The stamps of a changed record: \<^verbatim>\<open>last_state.as_of\<close> and \<^verbatim>\<open>modified_at\<close>.\<close>

definition stamp :: "host \<Rightarrow> jsval \<Rightarrow> jsval" where
  "stamp h rec0 =
     (let rec = set_prop ''last_state'' (objectOrEmpty (get_prop ''last_state'' rec0)) rec0;
          rec = set_prop2 ''last_state'' ''as_of'' (JStr (todayISO h)) rec;
          rec = set_prop2 ''last_state'' ''notes''
                  (arrayOrEmpty (get_prop ''notes'' (get_prop ''last_state'' rec))) rec
      in set_prop ''modified_at'' (JStr (nowISO h)) rec)"

text \<open>The \<^verbatim>\<open>update\<close> command of \<^verbatim>\<open>main\<close>: the outcome (an error, or the text on the
  standard output) and the file system after it.\<close>

definition update :: "host \<Rightarrow> jsval \<Rightarrow> filesystem \<Rightarrow> (error + string) \<times> filesystem" where
  "update h args fs =
     (let lid = get_prop ''lid'' args in
      if \<not> js_truthy lid then (Inl (Die ''update requires --lid <LID>''), fs)
      else (case ledgerDirOf h args of
          Inl e \<Rightarrow> (Inl e, fs)
        | Inr ledgerDir \<Rightarrow>
            (case loadLedger h fs lid ledgerDir of
               Inl e \<Rightarrow> (Inl e, fs)
             | Inr (rec, filePath) \<Rightarrow>
                 (case applyEdits args rec of
                    Inl e \<Rightarrow> (Inl e, fs)
                  | Inr (rec, changed) \<Rightarrow>
                      if \<not> changed
                      then (Inr (''No changes applied (no patch flags provided).'' @ nl), fs)
                      else
                        let rec = stamp h rec in
                        (case hardValidateLedgerRecord rec of
                           Inl e \<Rightarrow> (Inl e, fs)
                         | Inr _ \<Rightarrow>
                             (Inr (''Updated: '' @ filePath @ nl),
                              fs(filePath \<mapsto> Parsed (toJson rec))))))))"

section \<open>The text layout as the specification words it\<close>



section \<open>Required fields as the specification words them\<close>

text \<open>
  The specification asks that \<^verbatim>\<open>lid\<close>, \<^verbatim>\<open>project\<close>, \<^verbatim>\<open>created_at\<close> and
  \<^verbatim>\<open>summary\<close> be present and not blank after trimming, the \<^verbatim>\<open>lid\<close> with at least
  three characters left, and that the error list the fields that are not.
\<close>

definition spec_nonblank :: "jsval \<Rightarrow> bool" where
  "spec_nonblank v = (case v of JStr s \<Rightarrow> js_trim s \<noteq> [] | _ \<Rightarrow> False)"


definition lid_ok :: "jsval \<Rightarrow> bool" where
  "lid_ok v = (case v of JStr s \<Rightarrow> 3 \<le> length (js_trim s) | _ \<Rightarrow> False)"

section \<open>Looking into stored records\<close>

text \<open>
  A plain object is what \<^verbatim>\<open>JSON.parse\<close> returns for a JSON object; \<open>stored_field\<close> is
  a member of the document a ledger file holds, if the file parses and has it.
\<close>

fun plain_object :: "jsval \<Rightarrow> bool" where
  "plain_object (JObj kvs) = True"
| "plain_object _ = False"

definition stored_field :: "string \<Rightarrow> ledger_file \<Rightarrow> json option" where
  "stored_field k f = (case f of Parsed doc \<Rightarrow> json_get k doc | Corrupt msg \<Rightarrow> None)"

section \<open>Example inputs\<close>

text \<open>A host whose paths are joined with a slash, and a ledger directory \<^verbatim>\<open>/l\<close>.\<close>

definition ex_host :: host where
  "ex_host = \<lparr>
     path_resolve = (\<lambda>p. p),
     path_join = (\<lambda>d f. d @ ''/'' @ f),
     defaultLedgerDir = ''/home/u/.ulc/ledger'',
     todayISO = ''2026-01-02'',
     nowISO = ''2026-01-02T03:04:05'',
     localeCompare = (\<lambda>a b. 0) \<rparr>"

definition ex_record :: json where
  "ex_record = Obj [
     (''lid'', Str ''T01''),
     (''project'', Str ''P''),
     (''created_at'', Str ''2025-01-01''),
     (''summary'', Str ''S''),
     (''goals'', Arr [Str ''X'', Str ''Y'', Str ''X''])]"

definition ex_fs :: filesystem where
  "ex_fs = [''/l/T01.json'' \<mapsto> Parsed ex_record]"

definition ex_fs_corrupt :: filesystem where
  "ex_fs_corrupt = ex_fs(''/l/bad.json'' \<mapsto> Corrupt ''Unexpected end of JSON input'')"

definition ex_args_note :: jsval where
  "ex_args_note = JObj [
     (''_'', JArr [] []),
     (''lid'', JStr ''T01''),
     (''ledger-dir'', JStr ''/l''),
     (''add-note'', JStr ''n1'')]"

definition ex_args_init :: jsval where
  "ex_args_init = JObj [
     (''_'', JArr [] []),
     (''lid'', JStr ''T02''),
     (''project'', JStr ''P''),
     (''ledger-dir'', JStr ''/l''),
     (''summary'', JStr ''Context continuity'')]"

definition ex_args_remove :: jsval where
  "ex_args_remove = JObj [
     (''_'', JArr [] []),
     (''lid'', JStr ''T01''),
     (''ledger-dir'', JStr ''/l''),
     (''remove-goal'', JStr ''X'')]"


definition ex_record_ask :: json where
  "ex_record_ask = Obj [
     (''lid'', Str ''T01''),
     (''project'', Str ''P''),
     (''created_at'', Str ''2025-01-01''),
     (''summary'', Str ''S''),
     (''style'', Obj [(''ask_when_uncertain'', Str ''no'')])]"



definition ex_args_twice :: jsval where
  "ex_args_twice = JObj [
     (''_'', JArr [] []),
     (''lid'', JStr ''T01''),
     (''ledger-dir'', JStr ''/l''),
     (''summary'', JArr [JStr ''S1'', JStr ''S2''] [])]"



definition ex_args_goal :: jsval where
  "ex_args_goal = JObj [
     (''_'', JArr [] []),
     (''lid'', JStr ''T01''),
     (''ledger-dir'', JStr ''/l''),
     (''add-goal'', JStr ''g2'')]"

text \<open>A record whose \<^verbatim>\<open>created_at\<close> is the number literal \<^verbatim>\<open>1e400\<close>.\<close>

definition ex_record_overflow :: json where
  "ex_record_overflow = Obj [
     (''lid'', Str ''T03''),
     (''project'', Str ''P''),
     (''created_at'', Num (10 ^ 400)),
     (''summary'', Str ''S'')]"

definition ex_fs_overflow :: filesystem where
  "ex_fs_overflow = [''/l/T03.json'' \<mapsto> Parsed ex_record_overflow]"

definition ex_args_overflow :: jsval where
  "ex_args_overflow = JObj [
     (''_'', JArr [] []),
     (''lid'', JStr ''T03''),
     (''ledger-dir'', JStr ''/l''),
     (''add-goal'', JStr ''g2'')]"

section \<open>Basic facts\<close>

subsection \<open>Numbers through the file\<close>

text \<open>
  The literal \<^verbatim>\<open>9007199254740993\<close> is read as \<open>2\<^sup>5\<^sup>3\<close> and written back as such,
  \<open>2\<^sup>6\<^sup>0\<close> is written with seventeen significant digits, and \<open>2\<^sup>7\<^sup>0\<close> prints in the
  exponent form.
\<close>

lemma number_examples:
  "toJson (fromJson (Num (2 ^ 53 + 1))) = Num (2 ^ 53)"
  "toJson (fromJson (Num 42)) = Num 42"
  "toJson (fromJson (Num (2 ^ 60))) = Num 1152921504606847000"
  "js_String (fromJson (Num (2 ^ 70))) = ''1.1805916207174113e+21''"
  "js_String (fromJson (Num (- 1203))) = ''-1203''"
  by code_simp+

subsection \<open>Reading and writing properties\<close>

lemma get_set_same: "is_obj r \<Longrightarrow> get_prop k (set_prop k x r) = x"
  by (cases r) (simp_all add: update_conv')

lemma get_set_other: "k \<noteq> k' \<Longrightarrow> get_prop k (set_prop k' x r) = get_prop k r"
  by (cases r) (simp_all add: update_conv')

lemma is_obj_set: "is_obj (set_prop k x r) = is_obj r"
  by (cases r) simp_all

lemma get_set2_other: "k \<noteq> k1 \<Longrightarrow> get_prop k (set_prop2 k1 k2 x r) = get_prop k r"
  by (simp add: set_prop2_def get_set_other)

lemma is_obj_set2: "is_obj (set_prop2 k1 k2 x r) = is_obj r"
  by (simp add: set_prop2_def is_obj_set)

lemma elems_arrayOrEmpty: "elems (arrayOrEmpty x) = elems x"
  by (cases x) (simp_all add: arrayOrEmpty_def)

lemma isArray_arrayOrEmpty: "isArray (arrayOrEmpty x)"
  by (cases x) (simp_all add: arrayOrEmpty_def)

lemma is_obj_objectOrEmpty: "is_obj (objectOrEmpty x)"
  by (cases x) simp_all

lemma elems_foldl_push: "isArray a \<Longrightarrow> elems (foldl js_push a xs) = elems a @ xs"
proof (induction xs arbitrary: a)
  case Nil
  then show ?case by simp
next
  case (Cons x xs)
  from Cons.prems obtain ys ex where a: "a = JArr ys ex" by (cases a) simp_all
  have "isArray (js_push a x)" by (simp add: a js_push_def)
  from Cons.IH [OF this] show ?case by (simp add: a js_push_def)
qed

subsection \<open>The edits one by one\<close>

text \<open>Setting \<^verbatim>\<open>summary\<close> and \<^verbatim>\<open>project\<close>.\<close>

lemma edit_set_obj: "is_obj (fst (edit_set k args st)) = is_obj (fst st)"
  by (simp add: edit_set_def is_obj_set)

lemma edit_set_other: "k' \<noteq> k \<Longrightarrow> get_prop k' (fst (edit_set k args st)) = get_prop k' (fst st)"
  by (simp add: edit_set_def get_set_other)

lemma edit_set_changed: "snd (edit_set k args st) = (js_truthy (get_prop k args) \<or> snd st)"
  by (simp add: edit_set_def)

text \<open>Adding goals and constraints.\<close>

lemma edit_add_obj: "is_obj (fst (edit_add flag field args st)) = is_obj (fst st)"
  by (simp add: edit_add_def Let_def is_obj_set)

lemma edit_add_other:
  "k \<noteq> field \<Longrightarrow> get_prop k (fst (edit_add flag field args st)) = get_prop k (fst st)"
  by (simp add: edit_add_def Let_def get_set_other)

lemma edit_add_changed:
  "snd (edit_add flag field args st) = (asList (get_prop flag args) \<noteq> [] \<or> snd st)"
  by (simp add: edit_add_def Let_def)

lemma edit_add_elems:
  "is_obj (fst st) \<Longrightarrow>
   elems (get_prop field (fst (edit_add flag field args st))) =
     elems (get_prop field (fst st)) @ asList (get_prop flag args)"
  by (simp add: edit_add_def Let_def get_set_same is_obj_set elems_foldl_push
      isArray_arrayOrEmpty elems_arrayOrEmpty)

text \<open>Removing goals and constraints.\<close>

lemma edit_remove_obj: "is_obj (fst (edit_remove flag field args st)) = is_obj (fst st)"
  by (simp add: edit_remove_def Let_def is_obj_set)

lemma edit_remove_other:
  "k \<noteq> field \<Longrightarrow> get_prop k (fst (edit_remove flag field args st)) = get_prop k (fst st)"
  by (simp add: edit_remove_def Let_def get_set_other)

lemma edit_remove_elems:
  "is_obj (fst st) \<Longrightarrow>
   elems (get_prop field (fst (edit_remove flag field args st))) =
     filter (\<lambda>g. g \<notin> set (asList (get_prop flag args))) (elems (get_prop field (fst st)))"
  by (simp add: edit_remove_def Let_def get_set_same is_obj_set elems_arrayOrEmpty)

lemma edit_remove_changed:
  "is_obj (fst st) \<Longrightarrow>
   snd (edit_remove flag field args st) =
     (snd st \<or> length (filter (\<lambda>g. g \<notin> set (asList (get_prop flag args)))
                         (elems (get_prop field (fst st))))
               \<noteq> length (elems (get_prop field (fst st))))"
  by (auto simp add: edit_remove_def Let_def get_set_same is_obj_set elems_arrayOrEmpty)

text \<open>Setting \<^verbatim>\<open>style.ask_when_uncertain\<close>.\<close>

lemma edit_ask_obj: "edit_ask args st = Inr st' \<Longrightarrow> is_obj (fst st') = is_obj (fst st)"
  by (auto simp add: edit_ask_def Let_def is_obj_set is_obj_set2 split: if_splits sum.splits)

lemma edit_ask_other:
  "edit_ask args st = Inr st' \<Longrightarrow> k \<noteq> ''style'' \<Longrightarrow> get_prop k (fst st') = get_prop k (fst st)"
  by (auto simp add: edit_ask_def Let_def get_set_other get_set2_other split: if_splits sum.splits)

lemma edit_ask_changed:
  "edit_ask args st = Inr st' \<Longrightarrow>
   snd st' = (js_truthy (get_prop ''ask-when-uncertain'' args) \<or> snd st)"
  by (auto simp add: edit_ask_def Let_def split: if_splits sum.splits)

text \<open>Adding notes: the first loop leaves nothing for the second to add.\<close>

lemma edit_notes_obj: "is_obj (fst (edit_notes args st)) = is_obj (fst st)"
  by (simp add: edit_notes_def Let_def is_obj_set is_obj_set2 split: prod.splits)

lemma edit_notes_other:
  "k \<noteq> ''last_state'' \<Longrightarrow> get_prop k (fst (edit_notes args st)) = get_prop k (fst st)"
  by (simp add: edit_notes_def Let_def get_set_other get_set2_other split: prod.splits)


lemma get_set2_same:
  "is_obj r \<Longrightarrow> is_obj (get_prop k1 r) \<Longrightarrow> get_prop k2 (get_prop k1 (set_prop2 k1 k2 x r)) = x"
  by (simp add: set_prop2_def get_set_same)

lemma get_set2_obj:
  "is_obj r \<Longrightarrow> is_obj (get_prop k1 r) \<Longrightarrow> is_obj (get_prop k1 (set_prop2 k1 k2 x r))"
  by (simp add: set_prop2_def get_set_same is_obj_set)

lemma first_loop_adds_all:
  "isArray a \<Longrightarrow>
   isArray (foldl (\<lambda>ns n. if n \<in> set (elems ns) then ns else js_push ns n) a xs) \<and>
   set (elems a) \<union> set xs
     \<subseteq> set (elems (foldl (\<lambda>ns n. if n \<in> set (elems ns) then ns else js_push ns n) a xs))"
proof (induction xs arbitrary: a)
  case Nil
  then show ?case by simp
next
  case (Cons x xs)
  from Cons.prems obtain ys ex where a: "a = JArr ys ex" by (cases a) simp_all
  let ?a' = "if x \<in> set (elems a) then a else js_push a x"
  have arr: "isArray ?a'" by (simp add: a js_push_def)
  have sub: "set (elems a) \<union> {x} \<subseteq> set (elems ?a')" by (auto simp add: a js_push_def)
  from Cons.IH [OF arr] sub show ?case by auto
qed

lemma second_loop_adds_none:
  "set xs \<subseteq> set (elems ns) \<Longrightarrow>
   foldl (\<lambda>(ns, addedAny) n. if n \<in> set (elems ns) then (ns, addedAny) else (js_push ns n, True))
     (ns, b) xs = (ns, b)"
  by (induction xs) auto

lemma edit_notes_changed:
  assumes "is_obj (fst st)"
  shows "snd (edit_notes args st) = snd st"
proof (cases "asList (get_prop ''add-note'' args) = []")
  case True
  then show ?thesis by (simp add: edit_notes_def)
next
  case False
  define addNotes where "addNotes = asList (get_prop ''add-note'' args)"
  define r1 where "r1 = set_prop ''last_state'' (objectOrEmpty (get_prop ''last_state'' (fst st))) (fst st)"
  define r2 where "r2 = set_prop2 ''last_state'' ''notes''
                       (arrayOrEmpty (get_prop ''notes'' (get_prop ''last_state'' r1))) r1"
  define n1 where "n1 = foldl (\<lambda>ns n. if n \<in> set (elems ns) then ns else js_push ns n)
                          (get_prop ''notes'' (get_prop ''last_state'' r2)) addNotes"
  define r3 where "r3 = set_prop2 ''last_state'' ''notes'' n1 r2"
  have o1: "is_obj r1" "is_obj (get_prop ''last_state'' r1)"
    using assms by (simp_all add: r1_def is_obj_set get_set_same is_obj_objectOrEmpty)
  have o2: "is_obj r2" "is_obj (get_prop ''last_state'' r2)"
    using o1 by (simp_all add: r2_def is_obj_set2 get_set2_obj)
  have "get_prop ''notes'' (get_prop ''last_state'' r2)
          = arrayOrEmpty (get_prop ''notes'' (get_prop ''last_state'' r1))"
    using o1 by (simp add: r2_def get_set2_same)
  then have "isArray (get_prop ''notes'' (get_prop ''last_state'' r2))"
    by (simp add: isArray_arrayOrEmpty)
  from first_loop_adds_all [OF this, of addNotes]
  have all: "set addNotes \<subseteq> set (elems n1)" by (simp add: n1_def)
  have n3: "get_prop ''notes'' (get_prop ''last_state'' r3) = n1"
    using o2 by (simp add: r3_def get_set2_same)
  have "foldl (\<lambda>(ns, addedAny) n. if n \<in> set (elems ns) then (ns, addedAny) else (js_push ns n, True))
          (get_prop ''notes'' (get_prop ''last_state'' r3), False) addNotes = (n1, False)"
    unfolding n3 by (rule second_loop_adds_none [OF all])
  then show ?thesis
    using False
    by (simp add: edit_notes_def Let_def addNotes_def [symmetric] r1_def [symmetric]
        r2_def [symmetric] n1_def [symmetric] r3_def [symmetric])
qed

subsection \<open>What a validated record is\<close>

lemma hardValidate_Inr:
  assumes "hardValidateLedgerRecord rec = Inr r"
  shows "r = rec" and "is_obj rec"
    and "js_truthy (get_prop ''lid'' rec)" and "js_truthy (get_prop ''project'' rec)"
    and "js_truthy (get_prop ''created_at'' rec)" and "js_truthy (get_prop ''summary'' rec)"
proof -
  from assms show "r = rec"
    by (simp add: hardValidateLedgerRecord_def Let_def split: if_splits)
  from assms have m: "filter (\<lambda>k. \<not> js_truthy (get_prop k rec)) required = []"
    by (simp add: hardValidateLedgerRecord_def Let_def split: if_splits)
  then show t: "js_truthy (get_prop ''lid'' rec)" and "js_truthy (get_prop ''project'' rec)"
    and "js_truthy (get_prop ''created_at'' rec)" and "js_truthy (get_prop ''summary'' rec)"
    by (simp_all add: required_def split: if_splits)
  from t show "is_obj rec" by (cases rec) simp_all
qed

subsection \<open>The edits together\<close>

lemma applyEdits_Inr:
  assumes "applyEdits args rec = Inr st'"
  obtains st where
    "edit_ask args
       (edit_remove ''remove-constraint'' ''constraints'' args
         (edit_add ''add-constraint'' ''constraints'' args
           (edit_remove ''remove-goal'' ''goals'' args
             (edit_add ''add-goal'' ''goals'' args
               (edit_set ''project'' args (edit_set ''summary'' args (rec, False))))))) = Inr st"
    and "st' = edit_notes args st"
  using assms by (auto simp add: applyEdits_def Let_def split: sum.splits)

lemma applyEdits_goals:
  assumes "is_obj rec" and "applyEdits args rec = Inr st'"
  shows "elems (get_prop ''goals'' (fst st')) =
           filter (\<lambda>g. g \<notin> set (asList (get_prop ''remove-goal'' args)))
             (elems (get_prop ''goals'' rec) @ asList (get_prop ''add-goal'' args))"
proof -
  from assms(2) obtain st where
    ask: "edit_ask args
       (edit_remove ''remove-constraint'' ''constraints'' args
         (edit_add ''add-constraint'' ''constraints'' args
           (edit_remove ''remove-goal'' ''goals'' args
             (edit_add ''add-goal'' ''goals'' args
               (edit_set ''project'' args (edit_set ''summary'' args (rec, False))))))) = Inr st"
    and st': "st' = edit_notes args st"
    by (rule applyEdits_Inr)
  have "get_prop ''goals'' (fst st') = get_prop ''goals'' (fst st)"
    by (simp add: st' edit_notes_other)
  also have "\<dots> = get_prop ''goals''
      (fst (edit_remove ''remove-goal'' ''goals'' args
             (edit_add ''add-goal'' ''goals'' args
               (edit_set ''project'' args (edit_set ''summary'' args (rec, False))))))"
    by (simp add: edit_ask_other [OF ask] edit_remove_other edit_add_other)
  finally show ?thesis
    using assms(1)
    by (simp add: edit_remove_elems edit_add_elems edit_add_obj edit_set_obj edit_set_other)
qed

subsection \<open>Pushing lines\<close>


subsection \<open>Absent and null values\<close>

lemma nullish_undefined: "nullish JUndefined"
  by (simp add: nullish_def)

lemma get_prop_nullish: "nullish v \<Longrightarrow> get_prop k v = JUndefined"
  by (auto simp add: nullish_def)

lemma get_prop_coalesce_empty: "get_prop k (coalesce v (JObj [])) = get_prop k v"
  by (auto simp add: coalesce_def nullish_def)

subsection \<open>Hard validation as a chain of checks\<close>


lemma hardValidate_chain:
  "hardValidateLedgerRecord rec =
     (if filter (\<lambda>k. \<not> js_truthy (get_prop k rec)) required \<noteq> []
      then Inl (Die (''ledger entry missing required field(s): '' @
                     js_join '', '' (filter (\<lambda>k. \<not> js_truthy (get_prop k rec)) required)))
      else if \<not> lid_ok (get_prop ''lid'' rec)
      then Inl (Die (''ledger entry has invalid '' @ bq @ ''lid'' @ bq))
      else if \<not> spec_nonblank (get_prop ''project'' rec)
      then Inl (Die (''ledger entry has invalid '' @ bq @ ''project'' @ bq))
      else if \<not> spec_nonblank (get_prop ''summary'' rec)
      then Inl (Die (''ledger entry has invalid '' @ bq @ ''summary'' @ bq))
      else Inr rec)"
  by (simp add: hardValidateLedgerRecord_def Let_def lid_ok_def spec_nonblank_def
      split: jsval.splits)

subsection \<open>The flag \<^verbatim>\<open>changed\<close> and what was loaded\<close>

lemma filter_shorter: "(length (filter P xs) \<noteq> length xs) = (\<exists>x\<in>set xs. \<not> P x)"
proof
  assume "length (filter P xs) \<noteq> length xs"
  then have "filter P xs \<noteq> xs" by auto
  then show "\<exists>x\<in>set xs. \<not> P x" by (auto simp add: filter_id_conv)
next
  assume "\<exists>x\<in>set xs. \<not> P x"
  then obtain x where "x \<in> set xs" "\<not> P x" by blast
  then have "length (filter P xs) < length xs" by (rule length_filter_less)
  then show "length (filter P xs) \<noteq> length xs" by simp
qed

lemma applyEdits_changed:
  assumes "is_obj rec" and "applyEdits args rec = Inr st'"
  shows "snd st' =
    (js_truthy (get_prop ''summary'' args)
     \<or> js_truthy (get_prop ''project'' args)
     \<or> asList (get_prop ''add-goal'' args) \<noteq> []
     \<or> (\<exists>g \<in> set (elems (get_prop ''goals'' rec) @ asList (get_prop ''add-goal'' args)).
           g \<in> set (asList (get_prop ''remove-goal'' args)))
     \<or> asList (get_prop ''add-constraint'' args) \<noteq> []
     \<or> (\<exists>c \<in> set (elems (get_prop ''constraints'' rec) @ asList (get_prop ''add-constraint'' args)).
           c \<in> set (asList (get_prop ''remove-constraint'' args)))
     \<or> js_truthy (get_prop ''ask-when-uncertain'' args))"
proof -
  from assms(2) obtain st where
    ask: "edit_ask args
       (edit_remove ''remove-constraint'' ''constraints'' args
         (edit_add ''add-constraint'' ''constraints'' args
           (edit_remove ''remove-goal'' ''goals'' args
             (edit_add ''add-goal'' ''goals'' args
               (edit_set ''project'' args (edit_set ''summary'' args (rec, False))))))) = Inr st"
    and st': "st' = edit_notes args st"
    by (rule applyEdits_Inr)
  have o: "is_obj (fst st)"
    using assms(1) by (simp add: edit_ask_obj [OF ask] edit_remove_obj edit_add_obj edit_set_obj)
  have "snd st' = snd st"
    by (simp add: st' edit_notes_changed [OF o])
  then show ?thesis
    using assms(1)
    by (simp add: edit_ask_changed [OF ask] edit_remove_changed edit_remove_obj edit_add_obj
        edit_set_obj edit_add_changed edit_set_changed edit_remove_other edit_add_other
        edit_set_other edit_add_elems edit_remove_elems filter_shorter)
      blast
qed


lemma loadLedger_Inr:
  assumes "loadLedger h fs lidv dir = Inr (rec, filePath)"
  shows "filePath = path_join h dir (js_String lidv @ ''.json'')"
    and "\<exists>doc. fs filePath = Some (Parsed doc) \<and> rec = fromJson doc"
    and "hardValidateLedgerRecord rec = Inr rec"
proof -
  from assms show p: "filePath = path_join h dir (js_String lidv @ ''.json'')"
    by (auto simp add: loadLedger_def Let_def split: if_splits sum.splits)
  from assms have r: "readJson fs filePath = Inr rec"
    by (auto simp add: loadLedger_def Let_def split: if_splits sum.splits)
  then show "\<exists>doc. fs filePath = Some (Parsed doc) \<and> rec = fromJson doc"
    by (auto simp add: readJson_def split: option.splits ledger_file.splits)
  from assms obtain r' where "hardValidateLedgerRecord rec = Inr r'"
    by (auto simp add: loadLedger_def Let_def split: if_splits sum.splits)
  then show "hardValidateLedgerRecord rec = Inr rec"
    by (simp add: hardValidate_Inr(1))
qed

subsection \<open>Storing and reading back\<close>

lemma fromJson_defined: "fromJson j \<noteq> JUndefined"
  by (cases j) simp_all

lemma map_of_toJson:
  "map_of kvs k = Some v \<Longrightarrow> v \<noteq> JUndefined \<Longrightarrow>
   map_of (map (\<lambda>kv. (fst kv, toJson (snd kv))) (filter (\<lambda>kv. snd kv \<noteq> JUndefined) kvs)) k
     = Some (toJson v)"
  by (induction kvs) (auto split: if_splits)

lemma json_get_toJson:
  assumes "plain_object r" and "get_prop k r \<noteq> JUndefined"
  shows "json_get k (toJson r) = Some (toJson (get_prop k r))"
proof -
  from assms(1) obtain kvs where r: "r = JObj kvs" by (cases r) simp_all
  from assms(2) obtain v where v: "map_of kvs k = Some v" "get_prop k r = v"
    by (auto simp add: r split: option.splits)
  with assms(2) show ?thesis by (simp add: r map_of_toJson)
qed

lemma map_of_fromJson:
  "map_of (map (\<lambda>kv. (fst kv, fromJson (snd kv))) kvs) k = map_option fromJson (map_of kvs k)"
  by (induction kvs) auto

lemma json_get_fromJson:
  assumes "get_prop k (fromJson doc) \<noteq> JUndefined"
  shows "plain_object (fromJson doc)"
    and "\<exists>v. json_get k doc = Some v \<and> get_prop k (fromJson doc) = fromJson v"
proof -
  from assms obtain kvs where d: "doc = Obj kvs" by (cases doc) simp_all
  then show "plain_object (fromJson doc)" by simp
  from assms obtain x where "map_of kvs k = Some x"
    by (auto simp add: d map_of_fromJson split: option.splits)
  then show "\<exists>v. json_get k doc = Some v \<and> get_prop k (fromJson doc) = fromJson v"
    by (simp add: d map_of_fromJson)
qed

lemma plain_object_set: "plain_object (set_prop k x r) = plain_object r"
  by (cases r) simp_all

lemma plain_object_set2: "plain_object (set_prop2 k1 k2 x r) = plain_object r"
  by (simp add: set_prop2_def plain_object_set)

lemma plain_object_edit_set: "plain_object (fst (edit_set k args st)) = plain_object (fst st)"
  by (simp add: edit_set_def plain_object_set)

lemma plain_object_edit_add:
  "plain_object (fst (edit_add flag field args st)) = plain_object (fst st)"
  by (simp add: edit_add_def Let_def plain_object_set)

lemma plain_object_edit_remove:
  "plain_object (fst (edit_remove flag field args st)) = plain_object (fst st)"
  by (simp add: edit_remove_def Let_def plain_object_set)

lemma plain_object_edit_notes: "plain_object (fst (edit_notes args st)) = plain_object (fst st)"
  by (simp add: edit_notes_def Let_def plain_object_set plain_object_set2 split: prod.splits)

lemma plain_object_edit_ask:
  "edit_ask args st = Inr st' \<Longrightarrow> plain_object (fst st') = plain_object (fst st)"
  by (auto simp add: edit_ask_def Let_def plain_object_set plain_object_set2
      split: if_splits sum.splits)

lemma plain_object_applyEdits:
  assumes "applyEdits args rec = Inr st'"
  shows "plain_object (fst st') = plain_object rec"
proof -
  from assms obtain st where
    ask: "edit_ask args
       (edit_remove ''remove-constraint'' ''constraints'' args
         (edit_add ''add-constraint'' ''constraints'' args
           (edit_remove ''remove-goal'' ''goals'' args
             (edit_add ''add-goal'' ''goals'' args
               (edit_set ''project'' args (edit_set ''summary'' args (rec, False))))))) = Inr st"
    and st': "st' = edit_notes args st"
    by (rule applyEdits_Inr)
  show ?thesis
    by (simp add: st' plain_object_edit_notes plain_object_edit_ask [OF ask]
        plain_object_edit_remove plain_object_edit_add plain_object_edit_set)
qed

lemma applyEdits_created_at:
  assumes "applyEdits args rec = Inr st'"
  shows "get_prop ''created_at'' (fst st') = get_prop ''created_at'' rec"
proof -
  from assms obtain st where
    ask: "edit_ask args
       (edit_remove ''remove-constraint'' ''constraints'' args
         (edit_add ''add-constraint'' ''constraints'' args
           (edit_remove ''remove-goal'' ''goals'' args
             (edit_add ''add-goal'' ''goals'' args
               (edit_set ''project'' args (edit_set ''summary'' args (rec, False))))))) = Inr st"
    and st': "st' = edit_notes args st"
    by (rule applyEdits_Inr)
  show ?thesis
    by (simp add: st' edit_notes_other edit_ask_other [OF ask] edit_remove_other edit_add_other
        edit_set_other)
qed

lemma stamp_created_at: "get_prop ''created_at'' (stamp h r) = get_prop ''created_at'' r"
  by (simp add: stamp_def Let_def get_set_other get_set2_other)

lemma plain_object_stamp: "plain_object (stamp h r) = plain_object r"
  by (simp add: stamp_def Let_def plain_object_set plain_object_set2)

lemma update_written:
  assumes "snd (update h args fs) \<noteq> fs"
  shows "\<exists>dir rec filePath rec'.
      loadLedger h fs (get_prop ''lid'' args) dir = Inr (rec, filePath)
      \<and> applyEdits args rec = Inr (rec', True)
      \<and> snd (update h args fs) = fs(filePath \<mapsto> Parsed (toJson (stamp h rec')))"
proof -
  from assms have t: "js_truthy (get_prop ''lid'' args)"
    by (auto simp add: update_def Let_def)
  from assms t obtain dir where d: "ledgerDirOf h args = Inr dir"
    by (cases "ledgerDirOf h args") (simp_all add: update_def Let_def)
  from assms t d obtain rec filePath where
    l: "loadLedger h fs (get_prop ''lid'' args) dir = Inr (rec, filePath)"
    by (cases "loadLedger h fs (get_prop ''lid'' args) dir") (auto simp add: update_def Let_def)
  from assms t d l obtain rec' changed where a: "applyEdits args rec = Inr (rec', changed)"
    by (cases "applyEdits args rec") (auto simp add: update_def Let_def)
  from assms t d l a have c: "changed"
    by (cases changed) (simp_all add: update_def Let_def)
  from assms t d l a c obtain r where v: "hardValidateLedgerRecord (stamp h rec') = Inr r"
    by (cases "hardValidateLedgerRecord (stamp h rec')") (simp_all add: update_def Let_def)
  from t d l a c v
  have "snd (update h args fs) = fs(filePath \<mapsto> Parsed (toJson (stamp h rec')))"
    by (simp add: update_def Let_def)
  moreover from a c have "applyEdits args rec = Inr (rec', True)" by simp
  ultimately show ?thesis using l by blast
qed

lemma update_cases:
  obtains (same) "snd (update h args fs) = fs"
  | (written) dir rec filePath rec' where
      "loadLedger h fs (get_prop ''lid'' args) dir = Inr (rec, filePath)"
      "applyEdits args rec = Inr (rec', True)"
      "snd (update h args fs) = fs(filePath \<mapsto> Parsed (toJson (stamp h rec')))"
  using update_written by blast

subsection \<open>Edits that leave the required fields alone\<close>

lemma edit_set_absent: "\<not> js_truthy (get_prop k args) \<Longrightarrow> edit_set k args st = st"
  by (simp add: edit_set_def)

lemma applyEdits_required:
  assumes "applyEdits args rec = Inr st'"
    and "\<not> js_truthy (get_prop ''summary'' args)"
    and "\<not> js_truthy (get_prop ''project'' args)"
    and "k \<in> set required"
  shows "get_prop k (fst st') = get_prop k rec"
proof -
  from assms(1) obtain st where
    ask: "edit_ask args
       (edit_remove ''remove-constraint'' ''constraints'' args
         (edit_add ''add-constraint'' ''constraints'' args
           (edit_remove ''remove-goal'' ''goals'' args
             (edit_add ''add-goal'' ''goals'' args
               (edit_set ''project'' args (edit_set ''summary'' args (rec, False))))))) = Inr st"
    and st': "st' = edit_notes args st"
    by (rule applyEdits_Inr)
  from assms(4) have k: "k \<noteq> ''last_state''" "k \<noteq> ''style''" "k \<noteq> ''constraints''" "k \<noteq> ''goals''"
    by (auto simp add: required_def)
  show ?thesis
    using k
    by (simp add: st' edit_notes_other edit_ask_other [OF ask] edit_remove_other edit_add_other
        edit_set_absent assms(2) assms(3))
qed

lemma stamp_required: "k \<in> set required \<Longrightarrow> get_prop k (stamp h r) = get_prop k r"
  by (auto simp add: required_def stamp_def Let_def get_set_other get_set2_other)

lemma hardValidate_same_fields:
  assumes "\<And>k. k \<in> set required \<Longrightarrow> get_prop k b = get_prop k a"
    and "hardValidateLedgerRecord a = Inr a"
  shows "hardValidateLedgerRecord b = Inr b"
proof -
  have "get_prop ''lid'' b = get_prop ''lid'' a" "get_prop ''project'' b = get_prop ''project'' a"
    "get_prop ''created_at'' b = get_prop ''created_at'' a"
    "get_prop ''summary'' b = get_prop ''summary'' a"
    by (simp_all add: assms(1) required_def)
  with assms(2) show ?thesis
    by (simp add: hardValidate_chain required_def split: if_splits)
qed

section \<open>Listing stops at a corrupt file\<close>

text \<open>
  Claim C1. \<^verbatim>\<open>list\<close> is to skip a file that does not parse and go on, never ending with
  an error because of it. In the program \<^verbatim>\<open>readJson\<close> catches the parse error itself and
  calls \<^verbatim>\<open>die\<close>, so the process exits inside the \<^verbatim>\<open>try\<close> block of \<^verbatim>\<open>listLedgerEntries\<close>:
  on a directory with one corrupt file and one valid record the command ends with the
  error of the corrupt file, whichever file comes first, instead of returning the valid
  record, which it does return once the corrupt file is gone.
\<close>

theorem C1_list_exits_on_corrupt_file:
  "listLedgerEntries ex_host ex_fs_corrupt (Some [''bad.json'', ''T01.json'']) ''/l'' =
     Inl (Die (''failed to read or parse JSON: /l/bad.json'' @ nl @ ''Unexpected end of JSON input''))
   \<and> listLedgerEntries ex_host ex_fs_corrupt (Some [''T01.json'', ''bad.json'']) ''/l'' =
     Inl (Die (''failed to read or parse JSON: /l/bad.json'' @ nl @ ''Unexpected end of JSON input''))
   \<and> listLedgerEntries ex_host ex_fs_corrupt (Some [''T01.json'']) ''/l'' =
     Inr [JObj [(''lid'', JStr ''T01''), (''project'', JStr ''P''),
                (''created_at'', JStr ''2025-01-01''), (''summary'', JStr ''S''),
                (''file'', JStr ''/l/T01.json'')]]"
  by code_simp

section \<open>A note alone is never saved\<close>

text \<open>
  Claim C2. A new note is to count as a change, so that the record is stamped and saved.
  In the program the first loop over the notes appends the note, and the second loop,
  the one that sets \<^verbatim>\<open>addedAny\<close>, then finds it present: \<^verbatim>\<open>update --add-note n1\<close> on a
  record without that note reports no changes and leaves the file as it was.
\<close>

theorem C2_new_note_alone_is_not_saved:
  "parseArgs [''--lid'', ''T01'', ''--ledger-dir'', ''/l'', ''--add-note'', ''n1''] = Inr ex_args_note \<and>
   update ex_host ex_args_note ex_fs =
     (Inr (''No changes applied (no patch flags provided).'' @ nl), ex_fs)"
proof
  show "parseArgs [''--lid'', ''T01'', ''--ledger-dir'', ''/l'', ''--add-note'', ''n1''] = Inr ex_args_note"
    by code_simp
  show "update ex_host ex_args_note ex_fs =
     (Inr (''No changes applied (no patch flags provided).'' @ nl), ex_fs)"
    by (simp add: update_def ex_args_note_def ex_host_def ex_fs_def ex_record_def ledgerDirOf_def
        loadLedger_def readJson_def hardValidateLedgerRecord_def required_def js_trim_def
        js_space_def applyEdits_def edit_set_def edit_add_def edit_remove_def edit_ask_def
        edit_notes_def asList_def arrayOrEmpty_def set_prop2_def js_push_def Let_def)
qed

section \<open>The summary given to init is dropped\<close>

text \<open>
  Claim C3. The record \<^verbatim>\<open>init\<close> creates is to carry the text of \<^verbatim>\<open>--summary\<close>.
  In the program \<^verbatim>\<open>initLedgerEntry\<close> receives the summary and writes the placeholder all
  the same: \<^verbatim>\<open>init --lid T02 --project P --summary "Context continuity"\<close> stores the
  placeholder summary.
\<close>

theorem C3_init_stores_placeholder_summary:
  "parseArgs [''--lid'', ''T02'', ''--project'', ''P'', ''--ledger-dir'', ''/l'',
              ''--summary'', ''Context continuity''] = Inr ex_args_init \<and>
   map_option (stored_field ''summary'') (snd (init ex_host ex_args_init ex_fs) ''/l/T02.json'') =
     Some (Some (Str ''TODO: one-sentence purpose for this collaboration context''))"
  by code_simp

section \<open>Removing goals\<close>

text \<open>
  Claim C7. For every record and every list of requested strings, the \<^verbatim>\<open>remove-goal\<close>
  edit keeps, in their order, exactly the goals that are none of the requested strings
  (every occurrence of a match goes, not only the first), and it sets \<^verbatim>\<open>changed\<close> only
  if that makes the list shorter. For the whole patch the goals are the stored ones
  followed by the added ones, with the matches removed. Removing \<^verbatim>\<open>X\<close> from
  \<^verbatim>\<open>["X","Y","X"]\<close> leaves \<^verbatim>\<open>["Y"]\<close>.
\<close>

theorem C7_remove_goal_removes_every_match:
  assumes "is_obj rec" and "asList (get_prop ''remove-goal'' args) = map JStr vs"
  shows "elems (get_prop ''goals'' (fst (edit_remove ''remove-goal'' ''goals'' args (rec, changed))))
           = filter (\<lambda>g. g \<notin> JStr ` set vs) (elems (get_prop ''goals'' rec))
       \<and> snd (edit_remove ''remove-goal'' ''goals'' args (rec, changed))
           = (changed \<or> length (filter (\<lambda>g. g \<notin> JStr ` set vs) (elems (get_prop ''goals'' rec)))
                        \<noteq> length (elems (get_prop ''goals'' rec)))
       \<and> (\<forall>st'. applyEdits args rec = Inr st' \<longrightarrow>
            elems (get_prop ''goals'' (fst st'))
              = filter (\<lambda>g. g \<notin> JStr ` set vs)
                  (elems (get_prop ''goals'' rec) @ asList (get_prop ''add-goal'' args)))"
  using assms
  by (simp add: edit_remove_elems edit_remove_changed applyEdits_goals)

theorem C7_remove_goal_witness:
  "is_obj (fromJson ex_record)
   \<and> asList (get_prop ''remove-goal'' ex_args_remove) = map JStr [''X'']
   \<and> elems (get_prop ''goals'' (fromJson ex_record)) = [JStr ''X'', JStr ''Y'', JStr ''X'']
   \<and> elems (get_prop ''goals''
        (fst (edit_remove ''remove-goal'' ''goals'' ex_args_remove (fromJson ex_record, False))))
       = [JStr ''Y'']
   \<and> snd (edit_remove ''remove-goal'' ''goals'' ex_args_remove (fromJson ex_record, False))"
proof -
  have o: "is_obj (fromJson ex_record)"
    by (simp add: ex_record_def)
  have r: "asList (get_prop ''remove-goal'' ex_args_remove) = map JStr [''X'']"
    by (simp add: ex_args_remove_def asList_def)
  have g: "elems (get_prop ''goals'' (fromJson ex_record)) = [JStr ''X'', JStr ''Y'', JStr ''X'']"
    by (simp add: ex_record_def)
  from C7_remove_goal_removes_every_match [OF o r, of False] o r g
  show ?thesis by simp
qed

section \<open>The sections of the text block\<close>



section \<open>Defaults of the compiled style\<close>

text \<open>
  Claim C6, as stated, says that \<^verbatim>\<open>compile\<close> puts \<open>true\<close> for
  \<^verbatim>\<open>style.ask_when_uncertain\<close> whenever the record's value is absent or not a boolean.
  The program uses \<^verbatim>\<open>??\<close>, which replaces only \<open>undefined\<close> and \<open>null\<close>: a record
  whose \<^verbatim>\<open>style.ask_when_uncertain\<close> is the string \<^verbatim>\<open>"no"\<close> compiles to that string.
\<close>

theorem C6_counterexample_non_boolean_ask:
  "compileContext (fromJson ex_record_ask) = Inr \<lparr>
     meta = \<lparr> source = ''Universal Ledger CLI'', version = ''0.1.0'', lid = JStr ''T01'',
              created_at = JStr ''2025-01-01'', project = JStr ''P'' \<rparr>,
     summary = JStr ''S'',
     goals = [],
     constraints = [],
     style = \<lparr> tone = JStr ''Precise, technical'', format = JStr ''Bullets preferred'',
               ask_when_uncertain = JStr ''no'' \<rparr>,
     last_known_state = \<lparr> as_of = JStr [], notes = [] \<rparr>,
     instructions = [
       ''Treat this block as authoritative user-provided context.'',
       ''Do not assume any prior internal memory beyond this block.'',
       ''Ask for clarification if this block conflicts with current conversation state.''] \<rparr>"
  by (simp add: compileContext_def ex_record_ask_def nullish_def coalesce_def VERSION_def Let_def)

text \<open>
  Claim C6, amended. For every record, \<^verbatim>\<open>compile\<close> fills \<^verbatim>\<open>style.tone\<close>,
  \<^verbatim>\<open>style.format\<close> and \<^verbatim>\<open>style.ask_when_uncertain\<close> with the record's value whenever
  that value is present and not \<open>null\<close>, whatever its type, and with
  \<^verbatim>\<open>"Precise, technical"\<close>, \<^verbatim>\<open>"Bullets preferred"\<close> and \<open>true\<close> when it is absent or
  \<open>null\<close>; a record with no style and no last state compiles to exactly those
  defaults and to the last known state with an empty \<^verbatim>\<open>as_of\<close> and no notes.
\<close>

theorem C6_compile_defaults:
  assumes "\<not> nullish rec"
  shows "\<exists>c. compileContext rec = Inr c
     \<and> tone (style c) =
         (if nullish (get_prop ''tone'' (get_prop ''style'' rec)) then JStr ''Precise, technical''
          else get_prop ''tone'' (get_prop ''style'' rec))
     \<and> format (style c) =
         (if nullish (get_prop ''format'' (get_prop ''style'' rec)) then JStr ''Bullets preferred''
          else get_prop ''format'' (get_prop ''style'' rec))
     \<and> ask_when_uncertain (style c) =
         (if nullish (get_prop ''ask_when_uncertain'' (get_prop ''style'' rec)) then JBool True
          else get_prop ''ask_when_uncertain'' (get_prop ''style'' rec))
     \<and> (nullish (get_prop ''style'' rec) \<and> nullish (get_prop ''last_state'' rec) \<longrightarrow>
          style c = \<lparr> tone = JStr ''Precise, technical'', format = JStr ''Bullets preferred'',
                      ask_when_uncertain = JBool True \<rparr>
          \<and> last_known_state c = \<lparr> as_of = JStr [], notes = [] \<rparr>)"
  using assms
  by (auto simp add: compileContext_def Let_def get_prop_coalesce_empty coalesce_def get_prop_nullish
      nullish_undefined)

theorem C6_compile_defaults_witness:
  "\<not> nullish (fromJson ex_record)
   \<and> nullish (get_prop ''style'' (fromJson ex_record))
   \<and> nullish (get_prop ''last_state'' (fromJson ex_record))
   \<and> (\<exists>c. compileContext (fromJson ex_record) = Inr c
        \<and> style c = \<lparr> tone = JStr ''Precise, technical'', format = JStr ''Bullets preferred'',
                      ask_when_uncertain = JBool True \<rparr>
        \<and> last_known_state c = \<lparr> as_of = JStr [], notes = [] \<rparr>)"
proof -
  have n: "\<not> nullish (fromJson ex_record)"
    by (simp add: ex_record_def nullish_def)
  have s: "nullish (get_prop ''style'' (fromJson ex_record))"
    and l: "nullish (get_prop ''last_state'' (fromJson ex_record))"
    by (simp_all add: ex_record_def nullish_def)
  from C6_compile_defaults [OF n] s l show ?thesis
    using n by blast
qed

section \<open>Hard validation\<close>




section \<open>When a patch counts as a change\<close>




section \<open>A patch that fails validation writes nothing\<close>

text \<open>
  Claim C10. For every \<^verbatim>\<open>update\<close> of a loaded record whose edited and stamped record
  fails hard validation, the command ends with that error and the file system is as
  before: the validation comes before the write. A repeated \<^verbatim>\<open>--summary\<close> makes the summary an array, which is such a
  record.
\<close>

theorem C10_failed_validation_writes_nothing:
  assumes "js_truthy (get_prop ''lid'' args)"
    and "ledgerDirOf h args = Inr dir"
    and "loadLedger h fs (get_prop ''lid'' args) dir = Inr (rec, filePath)"
    and "applyEdits args rec = Inr (rec', changed)"
    and "hardValidateLedgerRecord (stamp h rec') = Inl e"
  shows "update h args fs = (Inl e, fs)"
proof -
  from assms(3) have v: "hardValidateLedgerRecord rec = Inr rec"
    by (rule loadLedger_Inr(3))
  then have o: "is_obj rec"
    by (rule hardValidate_Inr(2))
  have changed
  proof (rule ccontr)
    assume "\<not> changed"
    with applyEdits_changed [OF o assms(4)]
    have f: "\<not> js_truthy (get_prop ''summary'' args)" "\<not> js_truthy (get_prop ''project'' args)"
      by simp_all
    have "get_prop k (stamp h rec') = get_prop k rec" if "k \<in> set required" for k
      using applyEdits_required [OF assms(4) f that] by (simp add: stamp_required that)
    then have "hardValidateLedgerRecord (stamp h rec') = Inr (stamp h rec')"
      using v by (rule hardValidate_same_fields)
    with assms(5) show False by simp
  qed
  with assms show ?thesis by (simp add: update_def Let_def)
qed

theorem C10_failed_validation_witness:
  "parseArgs [''--lid'', ''T01'', ''--ledger-dir'', ''/l'', ''--summary'', ''S1'', ''--summary'', ''S2'']
     = Inr ex_args_twice
   \<and> update ex_host ex_args_twice ex_fs =
       (Inl (Die (''ledger entry has invalid '' @ bq @ ''summary'' @ bq)), ex_fs)"
proof -
  have p: "parseArgs [''--lid'', ''T01'', ''--ledger-dir'', ''/l'', ''--summary'', ''S1'', ''--summary'', ''S2'']
     = Inr ex_args_twice"
    by code_simp
  have 1: "js_truthy (get_prop ''lid'' ex_args_twice)"
    by code_simp
  have 2: "ledgerDirOf ex_host ex_args_twice = Inr ''/l''"
    by code_simp
  have 3: "loadLedger ex_host ex_fs (get_prop ''lid'' ex_args_twice) ''/l''
             = Inr (fromJson ex_record, ''/l/T01.json'')"
    by code_simp
  have 4: "applyEdits ex_args_twice (fromJson ex_record)
             = Inr (set_prop ''summary'' (JArr [JStr ''S1'', JStr ''S2''] []) (fromJson ex_record), True)"
    by code_simp
  have 5: "hardValidateLedgerRecord
             (stamp ex_host (set_prop ''summary'' (JArr [JStr ''S1'', JStr ''S2''] []) (fromJson ex_record)))
             = Inl (Die (''ledger entry has invalid '' @ bq @ ''summary'' @ bq))"
    by code_simp
  from p C10_failed_validation_writes_nothing [OF 1 2 3 4 5] show ?thesis by simp
qed

section \<open>The creation date and the round trip through the file\<close>

text \<open>
  Claim C9, as stated, says that the \<^verbatim>\<open>created_at\<close> persisted by \<^verbatim>\<open>update\<close> is always
  the one that was loaded. Hard validation asks only that \<^verbatim>\<open>created_at\<close> be truthy, so a
  record whose \<^verbatim>\<open>created_at\<close> is the number \<^verbatim>\<open>1e400\<close> is accepted: \<^verbatim>\<open>JSON.parse\<close>
  reads it as \<^verbatim>\<open>Infinity\<close>, and \<^verbatim>\<open>JSON.stringify\<close> writes \<^verbatim>\<open>Infinity\<close> as \<open>null\<close>.
  After \<^verbatim>\<open>update --add-goal g2\<close> the stored \<^verbatim>\<open>created_at\<close> is \<open>null\<close>.
\<close>

theorem C9_counterexample_overflowing_created_at:
  "map_option (stored_field ''created_at'') (ex_fs_overflow ''/l/T03.json'')
     = Some (Some (Num (10 ^ 400)))
   \<and> map_option (stored_field ''created_at'')
         (snd (update ex_host ex_args_overflow ex_fs_overflow) ''/l/T03.json'')
     = Some (Some Null)"
  by code_simp

text \<open>
  Claim C9, amended. For every host, every argument object, every file system and every
  path whose stored \<^verbatim>\<open>created_at\<close>, if there is one, is a value that \<^verbatim>\<open>JSON.stringify\<close>
  writes back as \<^verbatim>\<open>JSON.parse\<close> read it (every string is one, and a string is what the
  data model asks for), the \<^verbatim>\<open>created_at\<close> stored at that path after \<^verbatim>\<open>update\<close> is the
  one stored there before, whether the command fails, changes nothing or writes the
  record: no edit and no stamp assigns \<^verbatim>\<open>created_at\<close>.
\<close>

theorem C9_created_at_is_never_altered:
  assumes "\<And>v. map_option (stored_field ''created_at'') (fs p) = Some (Some v)
                \<Longrightarrow> toJson (fromJson v) = v"
  shows "map_option (stored_field ''created_at'') (snd (update h args fs) p)
           = map_option (stored_field ''created_at'') (fs p)"
proof (cases h args fs rule: update_cases)
  case same
  then show ?thesis by simp
next
  case (written dir rec filePath rec')
  show ?thesis
  proof (cases "p = filePath")
    case False
    then show ?thesis by (simp add: written(3))
  next
    case True
    from written(1) obtain doc where doc: "fs filePath = Some (Parsed doc)" "rec = fromJson doc"
      using loadLedger_Inr(2) by blast
    from written(1) have "hardValidateLedgerRecord rec = Inr rec"
      by (rule loadLedger_Inr(3))
    then have "js_truthy (get_prop ''created_at'' rec)"
      by (rule hardValidate_Inr(5))
    then have def: "get_prop ''created_at'' (fromJson doc) \<noteq> JUndefined"
      by (auto simp add: doc(2))
    from json_get_fromJson(2) [OF def] obtain v where
      v: "json_get ''created_at'' doc = Some v"
         "get_prop ''created_at'' (fromJson doc) = fromJson v"
      by blast
    have "map_option (stored_field ''created_at'') (fs p) = Some (Some v)"
      by (simp add: True doc(1) stored_field_def v(1))
    then have rt: "toJson (fromJson v) = v"
      by (rule assms)
    have c: "get_prop ''created_at'' (stamp h rec') = fromJson v"
      using applyEdits_created_at [OF written(2)] by (simp add: stamp_created_at doc(2) v(2))
    have "plain_object (stamp h rec')"
      using plain_object_applyEdits [OF written(2)] json_get_fromJson(1) [OF def]
      by (simp add: plain_object_stamp doc(2))
    then have "json_get ''created_at'' (toJson (stamp h rec')) = Some (toJson (fromJson v))"
      using def by (simp add: json_get_toJson c fromJson_defined)
    then show ?thesis
      by (simp add: written(3) True doc(1) stored_field_def v(1) rt)
  qed
qed

theorem C9_created_at_witness:
  "map_option (stored_field ''created_at'') (ex_fs ''/l/T01.json'') = Some (Some (Str ''2025-01-01''))
   \<and> toJson (fromJson (Str ''2025-01-01'')) = Str ''2025-01-01''
   \<and> map_option (stored_field ''modified_at'') (ex_fs ''/l/T01.json'') = Some None
   \<and> map_option (stored_field ''modified_at'') (snd (update ex_host ex_args_goal ex_fs) ''/l/T01.json'')
       = Some (Some (Str ''2026-01-02T03:04:05''))
   \<and> map_option (stored_field ''created_at'') (snd (update ex_host ex_args_goal ex_fs) ''/l/T01.json'')
       = Some (Some (Str ''2025-01-01''))"
proof -
  have 1: "map_option (stored_field ''created_at'') (ex_fs ''/l/T01.json'') = Some (Some (Str ''2025-01-01''))"
    by code_simp
  have b: "toJson (fromJson (Str ''2025-01-01'')) = Str ''2025-01-01''"
    by simp
  have 2: "map_option (stored_field ''modified_at'') (ex_fs ''/l/T01.json'') = Some None"
    by code_simp
  have 3: "map_option (stored_field ''modified_at'') (snd (update ex_host ex_args_goal ex_fs) ''/l/T01.json'')
       = Some (Some (Str ''2026-01-02T03:04:05''))"
    by code_simp
  have h: "toJson (fromJson v) = v"
    if "map_option (stored_field ''created_at'') (ex_fs ''/l/T01.json'') = Some (Some v)" for v
    using that b by (simp add: 1)
  have 4: "map_option (stored_field ''created_at'') (snd (update ex_host ex_args_goal ex_fs) ''/l/T01.json'')
       = Some (Some (Str ''2025-01-01''))"
    using C9_created_at_is_never_altered [of ex_fs "''/l/T01.json''" ex_host ex_args_goal, OF h]
    by (simp add: 1)
  from 1 b 2 3 4 show ?thesis by blast
qed

end
